theory Spec2Isabelle
  imports Main
begin

section \<open>The credit ledger and redeem-code engine of database.py\<close>

text \<open>
  The module keeps three tables that matter to the ledger: \<open>users\<close>, \<open>redeem_codes\<close>
  and \<open>redeem_logs\<close>. Every function of the module is written twice, once for the
  embedded engine (\<open>USING_SQLITE\<close>) and once for the pooled engine; the model keeps the
  two branches apart so that they can be compared.

  Modelling decisions:
  \<^item> a table with a primary key is a map from the key to the remaining columns;
    \<open>redeem_logs\<close>, whose key is a surrogate id that no function reads, is the list of
    its rows without the id, in insertion order;
  \<^item> an integer parameter or column has the range of its type in the engine: 64 bits
    under the embedded engine, 32 bits for an \<open>INTEGER\<close> column and 64 bits for a
    \<open>BIGINT\<close> column under the pooled engine; a value outside it makes the binding or the
    sum raise, or, for a sum under the embedded engine, leaves the integers;
  \<^item> a point in time is the number of microseconds since 0001-01-01T00:00:00, the
    resolution and origin of Python's \<open>datetime\<close>; the text form in which a column
    stores it (\<open>isoformat\<close>, read back by \<open>fromisoformat\<close>) is not modelled;
  \<^item> \<open>datetime.now()\<close> is the parameter \<open>now\<close> of the function that reads the clock;
  \<^item> a raised exception is the left injection of a sum, next to the state the
    database is left in.
\<close>

subsection \<open>Tables\<close>

type_synonym timestamp = int

text \<open>
  The value of a column that sums are added to. Under the embedded engine a sum that
  leaves the 64-bit range is computed in floating point and stored as \<open>REAL\<close>; later
  sums continue in floating point, and are stored as integers again when they are
  integral and in range. The model does not follow floating point: \<open>Overflowed\<close>
  stands for any value with such a sum in its history.
\<close>

datatype sqlnum = Integer int | Overflowed

record user_row =
  username :: "string option"
  credits :: sqlnum
  joined_date :: timestamp
  referrer_id :: "int option"
  is_banned :: int
  total_earned :: sqlnum
  last_active :: timestamp

record code_row =
  amount :: int
  max_uses :: int
  current_uses :: int
  expiry_minutes :: "int option"
  created_date :: timestamp
  is_active :: int

record log_row =
  log_user_id :: int
  log_code :: string
  claimed_date :: timestamp

record db =
  users :: "int \<rightharpoonup> user_row"
  redeem_codes :: "string \<rightharpoonup> code_row"
  redeem_logs :: "log_row list"

datatype engine = SQLite | PostgreSQL

datatype exn =
  OverflowError | DataError | NumericValueOutOfRange | StorageError | UniqueViolationError

subsection \<open>Integer ranges\<close>

definition int64 :: "int \<Rightarrow> bool" where
  "int64 x = (- 9223372036854775808 \<le> x \<and> x \<le> 9223372036854775807)"

definition int32 :: "int \<Rightarrow> bool" where
  "int32 x = (- 2147483648 \<le> x \<and> x \<le> 2147483647)"

text \<open>
  A Python \<open>int\<close> given as a parameter of a statement. The embedded engine's driver
  raises \<open>OverflowError\<close> for a value beyond 64 bits. The pooled engine's driver encodes
  the value in the type the statement gives the parameter, \<open>int4\<close> next to an \<open>INTEGER\<close>
  column and \<open>int8\<close> next to a \<open>BIGINT\<close> column, and raises \<open>DataError\<close> beyond it. The
  statement is then not run.
\<close>

definition bind_error :: "engine \<Rightarrow> exn" where
  "bind_error eng = (case eng of SQLite \<Rightarrow> OverflowError | PostgreSQL \<Rightarrow> DataError)"

definition fits_integer :: "engine \<Rightarrow> int \<Rightarrow> bool" where
  "fits_integer eng x = (case eng of SQLite \<Rightarrow> int64 x | PostgreSQL \<Rightarrow> int32 x)"

definition fits_optional :: "(int \<Rightarrow> bool) \<Rightarrow> int option \<Rightarrow> bool" where
  "fits_optional p x = (case x of None \<Rightarrow> True | Some y \<Rightarrow> p y)"

text \<open>
  \<open>column + ?\<close> in an \<open>UPDATE\<close>. The pooled engine raises \<open>integer out of range\<close> when
  the sum leaves 32 bits, and never holds an \<open>Overflowed\<close> value.
\<close>

definition sql_add :: "engine \<Rightarrow> sqlnum \<Rightarrow> int \<Rightarrow> exn + sqlnum" where
  "sql_add eng v x =
     (case eng of
        SQLite \<Rightarrow>
          (case v of
             Integer a \<Rightarrow> if int64 (a + x) then Inr (Integer (a + x)) else Inr Overflowed
           | Overflowed \<Rightarrow> Inr Overflowed)
      | PostgreSQL \<Rightarrow>
          (case v of
             Integer a \<Rightarrow>
               if int32 (a + x) then Inr (Integer (a + x)) else Inl NumericValueOutOfRange
           | Overflowed \<Rightarrow> Inl NumericValueOutOfRange))"

text \<open>
  \<open>current_uses + 1\<close>. Under the embedded engine the sum after the largest 64-bit
  integer is the \<open>REAL\<close> 9223372036854775808.0, and one more added to it gives the same
  \<open>REAL\<close> again; the column then holds this number, which Python reads as a \<open>float\<close> and
  compares by value.
\<close>

definition next_uses :: "engine \<Rightarrow> int \<Rightarrow> exn + int" where
  "next_uses eng n =
     (case eng of
        SQLite \<Rightarrow> if n < 9223372036854775807 then Inr (n + 1) else Inr 9223372036854775808
      | PostgreSQL \<Rightarrow> if int32 (n + 1) then Inr (n + 1) else Inl NumericValueOutOfRange)"

subsection \<open>Python's datetime arithmetic\<close>

text \<open>
  \<open>datetime\<close> covers the years 1 to 9999, that is the ordinal days 1 to 3652059;
  \<open>timedelta\<close> holds at most 999999999 days in magnitude. Both constructors raise
  \<open>OverflowError\<close> outside their range.
\<close>

definition datetime_end :: timestamp where
  "datetime_end = 3652059 * 86400 * 1000000"

definition valid_datetime :: "timestamp \<Rightarrow> bool" where
  "valid_datetime t = (0 \<le> t \<and> t < datetime_end)"

definition timedelta_minutes :: "int \<Rightarrow> exn + int" where
  "timedelta_minutes m =
     (if \<bar>m div 1440\<bar> > 999999999 then Inl OverflowError else Inr (m * 60000000))"

definition datetime_add :: "timestamp \<Rightarrow> int \<Rightarrow> exn + timestamp" where
  "datetime_add t delta =
     (if valid_datetime (t + delta) then Inr (t + delta) else Inl OverflowError)"

subsection \<open>SQL statements\<close>

text \<open>
  A statement either raises and changes nothing, or gives the new state.
  \<open>UPDATE users SET ... WHERE user_id = ?\<close>: no row, no change.
\<close>

definition update_users_where_id ::
  "(user_row \<Rightarrow> exn + user_row) \<Rightarrow> int \<Rightarrow> db \<Rightarrow> exn + db" where
  "update_users_where_id f uid d =
     (case users d uid of
        None \<Rightarrow> Inr d
      | Some u \<Rightarrow>
          (case f u of
             Inl e \<Rightarrow> Inl e
           | Inr u' \<Rightarrow> Inr (d\<lparr>users := (users d)(uid \<mapsto> u')\<rparr>)))"

text \<open>The same statement with a \<open>SET\<close> clause that cannot fail.\<close>

definition set_users_where_id :: "(user_row \<Rightarrow> user_row) \<Rightarrow> int \<Rightarrow> db \<Rightarrow> db" where
  "set_users_where_id f uid d =
     (case users d uid of
        None \<Rightarrow> d
      | Some u \<Rightarrow> d\<lparr>users := (users d)(uid \<mapsto> f u)\<rparr>)"

text \<open>\<open>SET credits = credits + ?\<close>\<close>

definition add_credits :: "engine \<Rightarrow> int \<Rightarrow> user_row \<Rightarrow> exn + user_row" where
  "add_credits eng x u =
     (case sql_add eng (credits u) x of
        Inl e \<Rightarrow> Inl e
      | Inr v \<Rightarrow> Inr (u\<lparr>credits := v\<rparr>))"

text \<open>\<open>SET total_earned = total_earned + ?\<close>\<close>

definition add_total_earned :: "engine \<Rightarrow> int \<Rightarrow> user_row \<Rightarrow> exn + user_row" where
  "add_total_earned eng x u =
     (case sql_add eng (total_earned u) x of
        Inl e \<Rightarrow> Inl e
      | Inr v \<Rightarrow> Inr (u\<lparr>total_earned := v\<rparr>))"

text \<open>\<open>SET credits = credits + ?, total_earned = total_earned + ?\<close>\<close>

definition add_credits_and_earned :: "engine \<Rightarrow> int \<Rightarrow> user_row \<Rightarrow> exn + user_row" where
  "add_credits_and_earned eng x u =
     (case sql_add eng (credits u) x of
        Inl e \<Rightarrow> Inl e
      | Inr v \<Rightarrow>
          (case sql_add eng (total_earned u) x of
             Inl e \<Rightarrow> Inl e
           | Inr w \<Rightarrow> Inr (u\<lparr>credits := v, total_earned := w\<rparr>)))"

text \<open>\<open>UPDATE redeem_codes SET ... WHERE code = ?\<close>\<close>

definition update_codes_where_code :: "(code_row \<Rightarrow> code_row) \<Rightarrow> string \<Rightarrow> db \<Rightarrow> db" where
  "update_codes_where_code f c d =
     (case redeem_codes d c of
        None \<Rightarrow> d
      | Some r \<Rightarrow> d\<lparr>redeem_codes := (redeem_codes d)(c \<mapsto> f r)\<rparr>)"

text \<open>\<open>UPDATE redeem_codes SET current_uses = current_uses + 1 WHERE code = ?\<close>\<close>

definition increment_current_uses :: "engine \<Rightarrow> string \<Rightarrow> db \<Rightarrow> exn + db" where
  "increment_current_uses eng c d =
     (case redeem_codes d c of
        None \<Rightarrow> Inr d
      | Some r \<Rightarrow>
          (case next_uses eng (current_uses r) of
             Inl e \<Rightarrow> Inl e
           | Inr n \<Rightarrow> Inr (d\<lparr>redeem_codes := (redeem_codes d)(c \<mapsto> r\<lparr>current_uses := n\<rparr>)\<rparr>)))"

text \<open>\<open>SELECT 1 FROM redeem_logs WHERE user_id = ? AND code = ?\<close> returns a row.\<close>

definition log_exists :: "db \<Rightarrow> int \<Rightarrow> string \<Rightarrow> bool" where
  "log_exists d uid c = (\<exists>r \<in> set (redeem_logs d). log_user_id r = uid \<and> log_code r = c)"

text \<open>
  \<open>INSERT OR IGNORE INTO redeem_logs\<close> and \<open>INSERT ... ON CONFLICT DO NOTHING\<close>:
  the \<open>UNIQUE(user_id, code)\<close> constraint drops the row when the pair is present.
\<close>

definition insert_log_or_ignore :: "int \<Rightarrow> string \<Rightarrow> timestamp \<Rightarrow> db \<Rightarrow> exn + db" where
  "insert_log_or_ignore uid c now d =
     (if log_exists d uid c then Inr d
      else Inr (d\<lparr>redeem_logs :=
                  redeem_logs d @ [\<lparr>log_user_id = uid, log_code = c, claimed_date = now\<rparr>]\<rparr>))"

definition commit :: "db \<Rightarrow> exn + db" where
  "commit d = Inr d"

text \<open>A statement whose parameters must be bound first.\<close>

definition bound :: "bool \<Rightarrow> exn \<Rightarrow> (db \<Rightarrow> exn + db) \<Rightarrow> db \<Rightarrow> exn + db" where
  "bound ok e s d = (if ok then s d else Inl e)"

text \<open>
  The statements of a transaction run in order, up to the first that raises.
  \<open>fault = Some k\<close> says that the statement at position \<open>k\<close> (from 0, the commit
  included) raises for a reason outside the model, such as a lost connection or a locked
  file. The caller decides what happens to the exception and rolls back to the state it
  started from. Opening the transaction and rolling it back are taken to succeed.
\<close>

fun run_statements :: "nat option \<Rightarrow> (db \<Rightarrow> exn + db) list \<Rightarrow> db \<Rightarrow> exn + db" where
  "run_statements fault [] d = Inr d"
| "run_statements None (s # ss) d =
     (case s d of Inl e \<Rightarrow> Inl e | Inr d' \<Rightarrow> run_statements None ss d')"
| "run_statements (Some 0) (s # ss) d = Inl StorageError"
| "run_statements (Some (Suc k)) (s # ss) d =
     (case s d of Inl e \<Rightarrow> Inl e | Inr d' \<Rightarrow> run_statements (Some k) ss d')"

text \<open>What a call gives back after its one statement or its transaction.\<close>

definition returned :: "exn + db \<Rightarrow> db \<Rightarrow> (exn + unit) \<times> db" where
  "returned r d = (case r of Inl e \<Rightarrow> (Inl e, d) | Inr d' \<Rightarrow> (Inr (), d'))"

subsection \<open>User functions\<close>

definition new_user :: "string option \<Rightarrow> timestamp \<Rightarrow> int option \<Rightarrow> user_row" where
  "new_user uname now ref =
     \<lparr>username = uname, credits = Integer 5, joined_date = now, referrer_id = ref,
      is_banned = 0, total_earned = Integer 0, last_active = now\<rparr>"

text \<open>
  \<open>add_user\<close>. The embedded branch tests the fetched row, a non-empty tuple; the pooled
  branch tests the fetched \<open>user_id\<close> itself, which is false for the id 0, and the
  \<open>INSERT\<close> then meets the primary key. The \<open>SELECT\<close> binds \<open>user_id\<close>, the \<open>INSERT\<close>
  binds \<open>referrer_id\<close> as well.
\<close>

definition add_user_sqlite ::
  "timestamp \<Rightarrow> db \<Rightarrow> int \<Rightarrow> string option \<Rightarrow> int option \<Rightarrow> (exn + unit) \<times> db" where
  "add_user_sqlite now d uid uname ref =
     (if \<not> int64 uid then (Inl OverflowError, d)
      else if users d uid \<noteq> None then (Inr (), d)
      else if \<not> fits_optional int64 ref then (Inl OverflowError, d)
      else (Inr (), d\<lparr>users := (users d)(uid \<mapsto> new_user uname now ref)\<rparr>))"

definition add_user_pg ::
  "timestamp \<Rightarrow> db \<Rightarrow> int \<Rightarrow> string option \<Rightarrow> int option \<Rightarrow> (exn + unit) \<times> db" where
  "add_user_pg now d uid uname ref =
     (if \<not> int64 uid then (Inl DataError, d)
      else if users d uid \<noteq> None \<and> uid \<noteq> 0 then (Inr (), d)
      else if \<not> fits_optional int64 ref then (Inl DataError, d)
      else if users d uid \<noteq> None then (Inl UniqueViolationError, d)
      else (Inr (), d\<lparr>users := (users d)(uid \<mapsto> new_user uname now ref)\<rparr>))"

definition add_user ::
  "engine \<Rightarrow> timestamp \<Rightarrow> db \<Rightarrow> int \<Rightarrow> string option \<Rightarrow> int option \<Rightarrow> (exn + unit) \<times> db" where
  "add_user eng now d uid uname ref =
     (case eng of
        SQLite \<Rightarrow> add_user_sqlite now d uid uname ref
      | PostgreSQL \<Rightarrow> add_user_pg now d uid uname ref)"

text \<open>
  \<open>update_credits\<close>: one \<open>UPDATE\<close> that binds \<open>amount\<close> next to the \<open>INTEGER\<close> columns
  and \<open>user_id\<close> next to the key.
\<close>

definition update_credits :: "engine \<Rightarrow> db \<Rightarrow> int \<Rightarrow> int \<Rightarrow> (exn + unit) \<times> db" where
  "update_credits eng d uid amt =
     (case eng of
        SQLite \<Rightarrow>
          (if amt > 0
           then returned
                  (bound (int64 amt \<and> int64 uid) OverflowError
                     (update_users_where_id (add_credits_and_earned SQLite amt) uid) d) d
           else returned
                  (bound (int64 amt \<and> int64 uid) OverflowError
                     (update_users_where_id (add_credits SQLite amt) uid) d) d)
      | PostgreSQL \<Rightarrow>
          (if amt > 0
           then returned
                  (bound (int32 amt \<and> int64 uid) DataError
                     (update_users_where_id (add_credits_and_earned PostgreSQL amt) uid) d) d
           else returned
                  (bound (int32 amt \<and> int64 uid) DataError
                     (update_users_where_id (add_credits PostgreSQL amt) uid) d) d))"

text \<open>
  The functions below return nothing and their one statement binds the id next to the
  key. For an id beyond 64 bits the binding raises and the state stays as it is; the
  statement without the binding gives the same state, since no row has such an id.
  \<open>set_ban_status\<close> also binds \<open>status\<close> next to an \<open>INTEGER\<close> column.
\<close>

definition set_ban_status :: "engine \<Rightarrow> db \<Rightarrow> int \<Rightarrow> int \<Rightarrow> db" where
  "set_ban_status eng d uid status =
     (case eng of
        SQLite \<Rightarrow>
          if int64 status then set_users_where_id (\<lambda>u. u\<lparr>is_banned := status\<rparr>) uid d else d
      | PostgreSQL \<Rightarrow>
          if int32 status then set_users_where_id (\<lambda>u. u\<lparr>is_banned := status\<rparr>) uid d else d)"

definition reset_user_credits :: "engine \<Rightarrow> db \<Rightarrow> int \<Rightarrow> db" where
  "reset_user_credits eng d uid =
     (case eng of
        SQLite \<Rightarrow> set_users_where_id (\<lambda>u. u\<lparr>credits := Integer 0\<rparr>) uid d
      | PostgreSQL \<Rightarrow> set_users_where_id (\<lambda>u. u\<lparr>credits := Integer 0\<rparr>) uid d)"

definition update_username :: "engine \<Rightarrow> db \<Rightarrow> int \<Rightarrow> string option \<Rightarrow> db" where
  "update_username eng d uid uname =
     (case eng of
        SQLite \<Rightarrow> set_users_where_id (\<lambda>u. u\<lparr>username := uname\<rparr>) uid d
      | PostgreSQL \<Rightarrow> set_users_where_id (\<lambda>u. u\<lparr>username := uname\<rparr>) uid d)"

definition update_last_active :: "engine \<Rightarrow> timestamp \<Rightarrow> db \<Rightarrow> int \<Rightarrow> db" where
  "update_last_active eng now d uid =
     (case eng of
        SQLite \<Rightarrow> set_users_where_id (\<lambda>u. u\<lparr>last_active := now\<rparr>) uid d
      | PostgreSQL \<Rightarrow> set_users_where_id (\<lambda>u. u\<lparr>last_active := now\<rparr>) uid d)"

text \<open>
  \<open>bulk_update_credits\<close>: the loop over \<open>user_ids\<close> inside one transaction. An
  exception leaves the loop; the pooled branch rolls back on the way out, the embedded
  branch never reaches its \<open>COMMIT\<close> and closes the connection.
\<close>

fun bulk_statements :: "engine \<Rightarrow> int \<Rightarrow> int list \<Rightarrow> db \<Rightarrow> exn + db" where
  "bulk_statements eng amt [] d = Inr d"
| "bulk_statements eng amt (uid # uids) d =
     (case bound (fits_integer eng amt \<and> int64 uid) (bind_error eng)
             (if amt > 0
              then update_users_where_id (add_credits_and_earned eng amt) uid
              else update_users_where_id (add_credits eng amt) uid) d of
        Inl e \<Rightarrow> Inl e
      | Inr d' \<Rightarrow> bulk_statements eng amt uids d')"

definition bulk_update_credits :: "engine \<Rightarrow> db \<Rightarrow> int list \<Rightarrow> int \<Rightarrow> (exn + unit) \<times> db" where
  "bulk_update_credits eng d uids amt =
     (case eng of
        SQLite \<Rightarrow> returned (bulk_statements SQLite amt uids d) d
      | PostgreSQL \<Rightarrow> returned (bulk_statements PostgreSQL amt uids d) d)"

text \<open>
  \<open>delete_user\<close>: three statements, in the source's order.
  \<open>DELETE FROM users\<close>, \<open>DELETE FROM redeem_logs\<close>, then
  \<open>UPDATE users SET referrer_id = NULL WHERE referrer_id = ?\<close> over every row. The
  function returns nothing; as above, an id beyond 64 bits is in no row, and the three
  statements then leave the state as the raised binding does.
\<close>

definition delete_from_users :: "int \<Rightarrow> db \<Rightarrow> db" where
  "delete_from_users uid d = d\<lparr>users := (users d)(uid := None)\<rparr>"

definition delete_from_redeem_logs :: "int \<Rightarrow> db \<Rightarrow> db" where
  "delete_from_redeem_logs uid d =
     d\<lparr>redeem_logs := filter (\<lambda>r. log_user_id r \<noteq> uid) (redeem_logs d)\<rparr>"

definition clear_referrer :: "int \<Rightarrow> db \<Rightarrow> db" where
  "clear_referrer uid d =
     d\<lparr>users := (\<lambda>k. map_option
                    (\<lambda>u. if referrer_id u = Some uid then u\<lparr>referrer_id := None\<rparr> else u)
                    (users d k))\<rparr>"

definition delete_user :: "engine \<Rightarrow> db \<Rightarrow> int \<Rightarrow> db" where
  "delete_user eng d uid =
     (case eng of
        SQLite \<Rightarrow> clear_referrer uid (delete_from_redeem_logs uid (delete_from_users uid d))
      | PostgreSQL \<Rightarrow> clear_referrer uid (delete_from_redeem_logs uid (delete_from_users uid d)))"

subsection \<open>Redeem code functions\<close>

text \<open>
  \<open>create_redeem_code\<close>. Neither statement names the column \<open>current_uses\<close>.
  \<open>INSERT OR REPLACE\<close> deletes the row that holds the key and inserts a new one, whose
  \<open>current_uses\<close> is the column default 0. \<open>ON CONFLICT (code) DO UPDATE SET\<close> assigns
  the five listed columns of the row that is there. Both bind \<open>amount\<close>, \<open>max_uses\<close> and
  \<open>expiry_minutes\<close> next to \<open>INTEGER\<close> columns.
\<close>

definition new_code :: "int \<Rightarrow> int \<Rightarrow> int option \<Rightarrow> timestamp \<Rightarrow> code_row" where
  "new_code amt uses exp now =
     \<lparr>amount = amt, max_uses = uses, current_uses = 0, expiry_minutes = exp,
      created_date = now, is_active = 1\<rparr>"

definition create_redeem_code ::
  "engine \<Rightarrow> timestamp \<Rightarrow> db \<Rightarrow> string \<Rightarrow> int \<Rightarrow> int \<Rightarrow> int option \<Rightarrow> (exn + unit) \<times> db" where
  "create_redeem_code eng now d c amt uses exp =
     (case eng of
        SQLite \<Rightarrow>
          if \<not> (int64 amt \<and> int64 uses \<and> fits_optional int64 exp) then (Inl OverflowError, d)
          else (Inr (), d\<lparr>redeem_codes := (redeem_codes d)(c \<mapsto> new_code amt uses exp now)\<rparr>)
      | PostgreSQL \<Rightarrow>
          if \<not> (int32 amt \<and> int32 uses \<and> fits_optional int32 exp) then (Inl DataError, d)
          else
            (case redeem_codes d c of
               None \<Rightarrow>
                 (Inr (), d\<lparr>redeem_codes := (redeem_codes d)(c \<mapsto> new_code amt uses exp now)\<rparr>)
             | Some r \<Rightarrow>
                 (Inr (), d\<lparr>redeem_codes := (redeem_codes d)(c \<mapsto>
                      r\<lparr>amount := amt, max_uses := uses, expiry_minutes := exp,
                        created_date := now, is_active := 1\<rparr>)\<rparr>)))"

definition delete_redeem_code :: "engine \<Rightarrow> db \<Rightarrow> string \<Rightarrow> db" where
  "delete_redeem_code eng d c =
     (case eng of
        SQLite \<Rightarrow> d\<lparr>redeem_codes := (redeem_codes d)(c := None)\<rparr>
      | PostgreSQL \<Rightarrow> d\<lparr>redeem_codes := (redeem_codes d)(c := None)\<rparr>)"

definition deactivate_code :: "engine \<Rightarrow> db \<Rightarrow> string \<Rightarrow> db" where
  "deactivate_code eng d c =
     (case eng of
        SQLite \<Rightarrow> update_codes_where_code (\<lambda>r. r\<lparr>is_active := 0\<rparr>) c d
      | PostgreSQL \<Rightarrow> update_codes_where_code (\<lambda>r. r\<lparr>is_active := 0\<rparr>) c d)"

datatype redeem_result =
  Already_claimed | Invalid | Inactive | Limit_reached | Expired | Amount int | Error exn

text \<open>
  The expiry test of \<open>redeem_code_db\<close>, the same text in both branches:
  \<open>if expiry_minutes is not None and expiry_minutes > 0\<close>, then
  \<open>datetime.now() > created_dt + timedelta(minutes=expiry_minutes)\<close>.
\<close>

definition expiry_check :: "timestamp \<Rightarrow> code_row \<Rightarrow> exn + bool" where
  "expiry_check now r =
     (case expiry_minutes r of
        None \<Rightarrow> Inr False
      | Some m \<Rightarrow>
          if m > 0 then
            (case timedelta_minutes m of
               Inl e \<Rightarrow> Inl e
             | Inr delta \<Rightarrow>
                 (case datetime_add (created_date r) delta of
                    Inl e \<Rightarrow> Inl e
                  | Inr expiry_dt \<Rightarrow> Inr (now > expiry_dt)))
          else Inr False)"

text \<open>
  \<open>redeem_code_db\<close> has two parts. The first part reads: it looks for the user's row
  in \<open>redeem_logs\<close>, fetches the code and runs the checks, outside any transaction. It
  ends the call with an answer, or lets it proceed with the \<open>amount\<close> it has read. The
  text of this part is the same in both branches.
\<close>

datatype checked = Answer redeem_result | Proceed int

definition redeem_checks :: "engine \<Rightarrow> timestamp \<Rightarrow> db \<Rightarrow> int \<Rightarrow> string \<Rightarrow> exn + checked" where
  "redeem_checks eng now d uid c =
     (if \<not> int64 uid then Inl (bind_error eng)
      else if log_exists d uid c then Inr (Answer Already_claimed)
      else case redeem_codes d c of
        None \<Rightarrow> Inr (Answer Invalid)
      | Some r \<Rightarrow>
          if is_active r = 0 then Inr (Answer Inactive)
          else if current_uses r \<ge> max_uses r then Inr (Answer Limit_reached)
          else (case expiry_check now r of
                  Inl e \<Rightarrow> Inl e
                | Inr True \<Rightarrow> Inr (Answer Expired)
                | Inr False \<Rightarrow> Inr (Proceed (amount r))))"

text \<open>
  The second part writes, in one transaction, with the \<open>amount\<close> of the first part. It
  does not look at the limit or at \<open>redeem_logs\<close> again. Embedded branch:
  \<open>BEGIN TRANSACTION\<close>, four statements and the commit inside \<open>try\<close>;
  \<open>except Exception\<close> rolls back and returns the text \<open>error: ...\<close>. The clock is read
  for the expiry test and again for \<open>claimed_date\<close>; the model takes the two readings of
  a call to be the one value \<open>now\<close>.
\<close>

definition redeem_transaction_sqlite ::
  "nat option \<Rightarrow> timestamp \<Rightarrow> db \<Rightarrow> int \<Rightarrow> string \<Rightarrow> int \<Rightarrow> (exn + redeem_result) \<times> db" where
  "redeem_transaction_sqlite fault now d uid c amt =
     (case run_statements fault
             [increment_current_uses SQLite c,
              bound (int64 amt \<and> int64 uid) OverflowError
                (update_users_where_id (add_credits SQLite amt) uid),
              bound (int64 amt \<and> int64 uid) OverflowError
                (update_users_where_id (add_total_earned SQLite amt) uid),
              bound (int64 uid) OverflowError (insert_log_or_ignore uid c now),
              commit] d of
        Inr d' \<Rightarrow> (Inr (Amount amt), d')
      | Inl e \<Rightarrow> (Inr (Error e), d))"

text \<open>
  Pooled branch: three statements inside \<open>async with conn.transaction()\<close>, which rolls
  back and lets the exception through.
\<close>

definition redeem_transaction_pg ::
  "nat option \<Rightarrow> timestamp \<Rightarrow> db \<Rightarrow> int \<Rightarrow> string \<Rightarrow> int \<Rightarrow> (exn + redeem_result) \<times> db" where
  "redeem_transaction_pg fault now d uid c amt =
     (case run_statements fault
             [increment_current_uses PostgreSQL c,
              bound (int32 amt \<and> int64 uid) DataError
                (update_users_where_id (add_credits_and_earned PostgreSQL amt) uid),
              bound (int64 uid) DataError (insert_log_or_ignore uid c now),
              commit] d of
        Inr d' \<Rightarrow> (Inr (Amount amt), d')
      | Inl e \<Rightarrow> (Inl e, d))"

definition redeem_transaction ::
  "engine \<Rightarrow> nat option \<Rightarrow> timestamp \<Rightarrow> db \<Rightarrow> int \<Rightarrow> string \<Rightarrow> int \<Rightarrow>
     (exn + redeem_result) \<times> db" where
  "redeem_transaction eng fault now d uid c amt =
     (case eng of
        SQLite \<Rightarrow> redeem_transaction_sqlite fault now d uid c amt
      | PostgreSQL \<Rightarrow> redeem_transaction_pg fault now d uid c amt)"

text \<open>
  A call of \<open>redeem_code_db\<close> that nothing else runs into: the second part starts from
  the state the first part has read.
\<close>

definition redeem_code_db_sqlite ::
  "nat option \<Rightarrow> timestamp \<Rightarrow> db \<Rightarrow> int \<Rightarrow> string \<Rightarrow> (exn + redeem_result) \<times> db" where
  "redeem_code_db_sqlite fault now d uid c =
     (case redeem_checks SQLite now d uid c of
        Inl e \<Rightarrow> (Inl e, d)
      | Inr (Answer a) \<Rightarrow> (Inr a, d)
      | Inr (Proceed amt) \<Rightarrow> redeem_transaction_sqlite fault now d uid c amt)"

definition redeem_code_db_pg ::
  "nat option \<Rightarrow> timestamp \<Rightarrow> db \<Rightarrow> int \<Rightarrow> string \<Rightarrow> (exn + redeem_result) \<times> db" where
  "redeem_code_db_pg fault now d uid c =
     (case redeem_checks PostgreSQL now d uid c of
        Inl e \<Rightarrow> (Inl e, d)
      | Inr (Answer a) \<Rightarrow> (Inr a, d)
      | Inr (Proceed amt) \<Rightarrow> redeem_transaction_pg fault now d uid c amt)"

definition redeem_code_db ::
  "engine \<Rightarrow> nat option \<Rightarrow> timestamp \<Rightarrow> db \<Rightarrow> int \<Rightarrow> string \<Rightarrow> (exn + redeem_result) \<times> db" where
  "redeem_code_db eng fault now d uid c =
     (case eng of
        SQLite \<Rightarrow> redeem_code_db_sqlite fault now d uid c
      | PostgreSQL \<Rightarrow> redeem_code_db_pg fault now d uid c)"

subsection \<open>Registration in start_command\<close>

text \<open>
  The ledger part of \<open>start_command\<close> in main.py. A banned user is turned away. A user
  without a row is added, and the referrer named in the start link, unless it is the
  user itself, receives 3 credits. A user who has joined the channels then has
  \<open>last_active\<close> set, at a later reading of the clock. \<open>ref_arg\<close> is the integer parsed
  from the link, \<open>None\<close> when there is no link or \<open>int\<close> fails; \<open>member\<close> is the answer
  of \<open>check_membership\<close>, which asks the chat platform. Sending messages is not
  modelled. \<open>get_user\<close> binds the id first.
\<close>

definition is_user_banned :: "db \<Rightarrow> int \<Rightarrow> bool" where
  "is_user_banned d uid =
     (case users d uid of None \<Rightarrow> False | Some u \<Rightarrow> is_banned u = 1)"

definition register_user ::
  "engine \<Rightarrow> timestamp \<Rightarrow> db \<Rightarrow> int \<Rightarrow> string option \<Rightarrow> int option \<Rightarrow> (exn + unit) \<times> db" where
  "register_user eng now d uid uname ref_arg =
     (case users d uid of
        Some u \<Rightarrow> (Inr (), d)
      | None \<Rightarrow>
          (let referrer = (case ref_arg of
                             None \<Rightarrow> None
                           | Some r \<Rightarrow> if r = uid then None else Some r);
               added = add_user eng now d uid uname referrer
           in case fst added of
                Inl e \<Rightarrow> (Inl e, snd added)
              | Inr x \<Rightarrow>
                  (case referrer of
                     None \<Rightarrow> (Inr (), snd added)
                   | Some r \<Rightarrow>
                       if r \<noteq> 0 then update_credits eng (snd added) r 3
                       else (Inr (), snd added))))"

definition start_command ::
  "engine \<Rightarrow> timestamp \<Rightarrow> timestamp \<Rightarrow> db \<Rightarrow> int \<Rightarrow> string option \<Rightarrow> int option \<Rightarrow> bool \<Rightarrow>
     (exn + unit) \<times> db" where
  "start_command eng now later d uid uname ref_arg member =
     (if \<not> int64 uid then (Inl (bind_error eng), d)
      else if is_user_banned d uid then (Inr (), d)
      else
        (let registered = register_user eng now d uid uname ref_arg
         in case fst registered of
              Inl e \<Rightarrow> (Inl e, snd registered)
            | Inr x \<Rightarrow>
                if \<not> member then (Inr (), snd registered)
                else (Inr (), update_last_active eng later (snd registered) uid)))"

subsection \<open>Sequences of operations\<close>

text \<open>
  \<open>Redeem_code_db\<close> is a whole call of \<open>redeem_code_db\<close>. \<open>Redeem_transaction\<close> is the
  second part of a call whose first part ran at an earlier state and read the amount
  given: the way to write two calls that overlap.
\<close>

datatype op =
    Add_user int "string option" "int option"
  | Update_credits int int
  | Set_ban_status int int
  | Reset_user_credits int
  | Update_username int "string option"
  | Update_last_active int
  | Bulk_update_credits "int list" int
  | Delete_user int
  | Create_redeem_code string int int "int option"
  | Redeem_code_db "nat option" int string
  | Redeem_transaction "nat option" int string int
  | Delete_redeem_code string
  | Deactivate_code string
  | Start_command int "string option" "int option" bool timestamp

text \<open>The state an operation leaves behind when it is called at time \<open>now\<close>.\<close>

fun exec :: "engine \<Rightarrow> timestamp \<Rightarrow> op \<Rightarrow> db \<Rightarrow> db" where
  "exec eng now (Add_user uid uname ref) d = snd (add_user eng now d uid uname ref)"
| "exec eng now (Update_credits uid amt) d = snd (update_credits eng d uid amt)"
| "exec eng now (Set_ban_status uid status) d = set_ban_status eng d uid status"
| "exec eng now (Reset_user_credits uid) d = reset_user_credits eng d uid"
| "exec eng now (Update_username uid uname) d = update_username eng d uid uname"
| "exec eng now (Update_last_active uid) d = update_last_active eng now d uid"
| "exec eng now (Bulk_update_credits uids amt) d = snd (bulk_update_credits eng d uids amt)"
| "exec eng now (Delete_user uid) d = delete_user eng d uid"
| "exec eng now (Create_redeem_code c amt uses exp) d =
     snd (create_redeem_code eng now d c amt uses exp)"
| "exec eng now (Redeem_code_db fault uid c) d = snd (redeem_code_db eng fault now d uid c)"
| "exec eng now (Redeem_transaction fault uid c amt) d =
     snd (redeem_transaction eng fault now d uid c amt)"
| "exec eng now (Delete_redeem_code c) d = delete_redeem_code eng d c"
| "exec eng now (Deactivate_code c) d = deactivate_code eng d c"
| "exec eng now (Start_command uid uname ref_arg member later) d =
     snd (start_command eng now later d uid uname ref_arg member)"

fun run :: "engine \<Rightarrow> (timestamp \<times> op) list \<Rightarrow> db \<Rightarrow> db" where
  "run eng [] d = d"
| "run eng ((now, x) # xs) d = run eng xs (exec eng now x d)"

definition empty_db :: db where
  "empty_db = \<lparr>users = Map.empty, redeem_codes = Map.empty, redeem_logs = []\<rparr>"

subsection \<open>Predicates of the properties\<close>








subsection \<open>A small database\<close>

text \<open>
  Two users, the second referred by the first, and one code that the first user has
  claimed, at the start of 2026.
\<close>

definition demo_time :: timestamp where
  "demo_time = 63902822400000000"

definition alice :: user_row where
  "alice = \<lparr>username = Some ''alice'', credits = Integer 55, joined_date = demo_time,
            referrer_id = None, is_banned = 0, total_earned = Integer 50,
            last_active = demo_time\<rparr>"

definition bob :: user_row where
  "bob = \<lparr>username = Some ''bob'', credits = Integer 5, joined_date = demo_time,
          referrer_id = Some 7, is_banned = 0, total_earned = Integer 0,
          last_active = demo_time\<rparr>"

definition welcome50 :: code_row where
  "welcome50 = \<lparr>amount = 50, max_uses = 10, current_uses = 1, expiry_minutes = Some 1,
                created_date = demo_time, is_active = 1\<rparr>"

definition demo_db :: db where
  "demo_db =
     \<lparr>users = [7 \<mapsto> alice, 8 \<mapsto> bob],
      redeem_codes = [''WELCOME50'' \<mapsto> welcome50],
      redeem_logs = [\<lparr>log_user_id = 7, log_code = ''WELCOME50'', claimed_date = demo_time\<rparr>]\<rparr>"



definition redefine_ops :: "(timestamp \<times> op) list" where
  "redefine_ops =
     [(demo_time, Add_user 7 (Some ''alice'') None),
      (demo_time, Create_redeem_code ''WELCOME50'' 50 10 None),
      (demo_time + 1, Redeem_code_db None 7 ''WELCOME50''),
      (demo_time + 2, Create_redeem_code ''WELCOME50'' 50 10 None)]"


text \<open>
  A code for one use with a duration of one minute, used up by user 7 within the
  minute.
\<close>

definition used_up_ops :: "(timestamp \<times> op) list" where
  "used_up_ops =
     [(demo_time, Create_redeem_code ''ONCE'' 10 1 (Some 1)),
      (demo_time + 1, Redeem_code_db None 7 ''ONCE'')]"

text \<open>
  Two claims of a code for one use that overlap: both have read the code before either
  writes.
\<close>

definition one_use_ops :: "(timestamp \<times> op) list" where
  "one_use_ops = [(demo_time, Create_redeem_code ''ONCE'' 10 1 None)]"

definition overlapping_ops :: "(timestamp \<times> op) list" where
  "overlapping_ops =
     [(demo_time + 2, Redeem_transaction None 7 ''ONCE'' 10),
      (demo_time + 3, Redeem_transaction None 8 ''ONCE'' 10)]"

section \<open>Properties\<close>

subsection \<open>What each statement leaves alone\<close>

lemma returned_simps [simp]:
  "returned (Inl e) d = (Inl e, d)"
  "returned (Inr d') d = (Inr (), d')"
  by (simp_all add: returned_def)

lemma bound_simps [simp]:
  "bound True e s d = s d"
  "bound False e s d = Inl e"
  by (simp_all add: bound_def)

lemma bound_Inr: "bound ok e s d = Inr d' \<longleftrightarrow> ok \<and> s d = Inr d'"
  by (simp add: bound_def)

lemma update_users_where_id_Inr:
  assumes "update_users_where_id f uid d = Inr d'"
  shows "redeem_codes d' = redeem_codes d" and "redeem_logs d' = redeem_logs d"
    and "k \<noteq> uid \<Longrightarrow> users d' k = users d k"
    and "users d' k = None \<longleftrightarrow> users d k = None"
  using assms
  by (auto simp add: update_users_where_id_def split: option.splits sum.splits if_splits)

lemma update_users_where_id_absent:
  "users d uid = None \<Longrightarrow> update_users_where_id f uid d = Inr d"
  by (simp add: update_users_where_id_def)

lemma set_users_where_id_frame [simp]:
  "redeem_codes (set_users_where_id f uid d) = redeem_codes d"
  "redeem_logs (set_users_where_id f uid d) = redeem_logs d"
  by (simp_all add: set_users_where_id_def split: option.splits)

lemma users_set_users_where_id:
  "users (set_users_where_id f k d) uid =
     (if uid = k then map_option f (users d k) else users d uid)"
  by (simp add: set_users_where_id_def split: option.splits)

lemma update_codes_where_code_frame [simp]:
  "users (update_codes_where_code f c d) = users d"
  "redeem_logs (update_codes_where_code f c d) = redeem_logs d"
  by (simp_all add: update_codes_where_code_def split: option.splits)

lemma increment_current_uses_Inr:
  assumes "increment_current_uses eng c d = Inr d'"
  shows "users d' = users d" and "redeem_logs d' = redeem_logs d"
    and "redeem_codes d' =
           (case redeem_codes d c of
              None \<Rightarrow> redeem_codes d
            | Some r \<Rightarrow>
                (redeem_codes d)(c \<mapsto>
                   r\<lparr>current_uses := (case next_uses eng (current_uses r) of
                                          Inr n \<Rightarrow> n | Inl e \<Rightarrow> current_uses r)\<rparr>))"
    and "redeem_codes d c = Some r \<Longrightarrow> \<exists>n. next_uses eng (current_uses r) = Inr n"
  using assms
  by (auto simp add: increment_current_uses_def split: option.splits sum.splits)

lemma insert_log_or_ignore_Inr:
  assumes "insert_log_or_ignore uid c now d = Inr d'"
  shows "users d' = users d" and "redeem_codes d' = redeem_codes d"
    and "redeem_logs d' =
           (if log_exists d uid c then redeem_logs d
            else redeem_logs d @ [\<lparr>log_user_id = uid, log_code = c, claimed_date = now\<rparr>])"
  using assms
  by (auto simp add: insert_log_or_ignore_def split: if_splits)

lemma commit_Inr: "commit d = Inr d' \<longleftrightarrow> d' = d"
  by (auto simp add: commit_def)

lemma update_credits_state:
  "snd (update_credits eng d uid amt) = d \<or>
   (\<exists>f. update_users_where_id f uid d = Inr (snd (update_credits eng d uid amt)))"
  by (cases eng)
    (auto simp add: update_credits_def returned_def bound_def split: sum.splits)

lemma update_credits_frame [simp]:
  "redeem_codes (snd (update_credits eng d uid amt)) = redeem_codes d"
  "redeem_logs (snd (update_credits eng d uid amt)) = redeem_logs d"
  using update_credits_state [of eng d uid amt]
  by (auto simp add: update_users_where_id_Inr)

lemma users_update_credits_other:
  "k \<noteq> uid \<Longrightarrow> users (snd (update_credits eng d uid amt)) k = users d k"
  using update_credits_state [of eng d uid amt]
  by (auto simp add: update_users_where_id_Inr)

lemma users_update_credits_None:
  "users (snd (update_credits eng d uid amt)) k = None \<longleftrightarrow> users d k = None"
  using update_credits_state [of eng d uid amt]
  by (auto simp add: update_users_where_id_Inr(4))

lemma bulk_statements_Inr:
  assumes "bulk_statements eng amt uids d = Inr d'"
  shows "redeem_codes d' = redeem_codes d \<and> redeem_logs d' = redeem_logs d \<and>
         (users d' k = None \<longleftrightarrow> users d k = None)"
  using assms
proof (induction uids arbitrary: d)
  case Nil
  then show ?case by simp
next
  case (Cons uid uids)
  from Cons.prems obtain d1 where
    one: "(if amt > 0 then update_users_where_id (add_credits_and_earned eng amt) uid
           else update_users_where_id (add_credits eng amt) uid) d = Inr d1"
    and rest: "bulk_statements eng amt uids d1 = Inr d'"
    by (auto simp add: bound_def split: sum.splits if_splits)
  from one have "redeem_codes d1 = redeem_codes d \<and> redeem_logs d1 = redeem_logs d \<and>
      (users d1 k = None \<longleftrightarrow> users d k = None)"
    by (auto simp add: update_users_where_id_Inr split: if_splits)
  with Cons.IH [OF rest] show ?case by simp
qed

lemma bulk_update_credits_state:
  "snd (bulk_update_credits eng d uids amt) = d \<or>
   bulk_statements eng amt uids d = Inr (snd (bulk_update_credits eng d uids amt))"
  by (cases eng) (auto simp add: bulk_update_credits_def returned_def split: sum.splits)

lemma bulk_update_credits_frame [simp]:
  "redeem_codes (snd (bulk_update_credits eng d uids amt)) = redeem_codes d"
  "redeem_logs (snd (bulk_update_credits eng d uids amt)) = redeem_logs d"
  using bulk_update_credits_state [of eng d uids amt]
  by (auto simp add: bulk_statements_Inr)

lemma users_bulk_update_credits_None:
  "users (snd (bulk_update_credits eng d uids amt)) k = None \<longleftrightarrow> users d k = None"
  using bulk_update_credits_state [of eng d uids amt] bulk_statements_Inr [of eng amt uids d _ k]
  by auto

lemma add_user_frame [simp]:
  "redeem_codes (snd (add_user eng now d uid uname ref)) = redeem_codes d"
  "redeem_logs (snd (add_user eng now d uid uname ref)) = redeem_logs d"
  by (cases eng; simp add: add_user_def add_user_sqlite_def add_user_pg_def)+

lemma users_add_user:
  "users (snd (add_user eng now d k uname ref)) uid =
     (if uid = k \<and> users d k = None \<and> fst (add_user eng now d k uname ref) = Inr ()
      then Some (new_user uname now ref) else users d uid)"
  by (cases eng) (simp_all add: add_user_def add_user_sqlite_def add_user_pg_def)

lemma user_statement_frame [simp]:
  "redeem_codes (set_ban_status eng d uid status) = redeem_codes d"
  "redeem_logs (set_ban_status eng d uid status) = redeem_logs d"
  "redeem_codes (reset_user_credits eng d uid) = redeem_codes d"
  "redeem_logs (reset_user_credits eng d uid) = redeem_logs d"
  "redeem_codes (update_username eng d uid uname) = redeem_codes d"
  "redeem_logs (update_username eng d uid uname) = redeem_logs d"
  "redeem_codes (update_last_active eng now d uid) = redeem_codes d"
  "redeem_logs (update_last_active eng now d uid) = redeem_logs d"
  by (cases eng; simp add: set_ban_status_def reset_user_credits_def update_username_def
      update_last_active_def)+

lemma register_user_frame [simp]:
  "redeem_codes (snd (register_user eng now d uid uname ref_arg)) = redeem_codes d"
  "redeem_logs (snd (register_user eng now d uid uname ref_arg)) = redeem_logs d"
  by (simp_all add: register_user_def Let_def split: option.splits sum.splits)

lemma start_command_frame [simp]:
  "redeem_codes (snd (start_command eng now later d uid uname ref_arg member)) = redeem_codes d"
  "redeem_logs (snd (start_command eng now later d uid uname ref_arg member)) = redeem_logs d"
  by (simp_all add: start_command_def Let_def split: option.splits sum.splits)

lemma delete_user_frame [simp]:
  "redeem_codes (delete_user eng d uid) = redeem_codes d"
  "redeem_logs (delete_user eng d uid) = filter (\<lambda>r. log_user_id r \<noteq> uid) (redeem_logs d)"
  by (cases eng; simp add: delete_user_def clear_referrer_def delete_from_redeem_logs_def
      delete_from_users_def)+

lemma code_statement_frame [simp]:
  "redeem_logs (snd (create_redeem_code eng now d c amt uses exp)) = redeem_logs d"
  "users (snd (create_redeem_code eng now d c amt uses exp)) = users d"
  "redeem_logs (delete_redeem_code eng d c) = redeem_logs d"
  "users (delete_redeem_code eng d c) = users d"
  "redeem_logs (deactivate_code eng d c) = redeem_logs d"
  "users (deactivate_code eng d c) = users d"
  by (cases eng; simp add: create_redeem_code_def delete_redeem_code_def deactivate_code_def
      split: option.splits)+

subsection \<open>The two parts of a claim\<close>

lemma run_statements_without_fault:
  "run_statements fault ss d = Inr d' \<Longrightarrow> run_statements None ss d = Inr d'"
  by (induction fault ss d rule: run_statements.induct) (auto split: sum.splits)

lemma run_statements_Cons:
  "run_statements None (s # ss) d = Inr d' \<longleftrightarrow>
   (\<exists>d1. s d = Inr d1 \<and> run_statements None ss d1 = Inr d')"
  by (auto split: sum.splits)

lemma run_statements_raises:
  "run_statements (Some k) ss d = Inl StorageError" if "k < length ss"
    and "\<And>s x. s \<in> set ss \<Longrightarrow> \<exists>y. s x = Inr y"
  using that
proof (induction "Some k" ss d arbitrary: k rule: run_statements.induct)
  case (1 d)
  then show ?case by simp
next
  case (3 s ss d)
  then show ?case by simp
next
  case (4 k s ss d)
  from 4(3) [of s d] obtain y where y: "s d = Inr y" by auto
  have "run_statements (Some k) ss y = Inl StorageError"
    using 4(1) [OF y] 4(2,3) by auto
  with y show ?case by simp
qed

lemma update_users_where_id_twice:
  assumes "update_users_where_id f uid d = Inr d1" and "update_users_where_id g uid d1 = Inr d2"
  shows "\<exists>h. update_users_where_id h uid d = Inr d2"
proof (rule exI [of _ "\<lambda>u. case f u of Inl e \<Rightarrow> Inl e | Inr u' \<Rightarrow> g u'"])
  show "update_users_where_id (\<lambda>u. case f u of Inl e \<Rightarrow> Inl e | Inr u' \<Rightarrow> g u') uid d = Inr d2"
    using assms
    by (auto simp add: update_users_where_id_def split: option.splits sum.splits)
qed

lemma redeem_transaction_outcome:
  "(snd (redeem_transaction eng fault now d uid c amt) = d \<and>
    (\<forall>n. fst (redeem_transaction eng fault now d uid c amt) \<noteq> Inr (Amount n))) \<or>
   (\<exists>d1 d2 d3.
      redeem_transaction eng fault now d uid c amt = (Inr (Amount amt), d3) \<and> int64 uid \<and>
      increment_current_uses eng c d = Inr d1 \<and>
      (\<exists>f. update_users_where_id f uid d1 = Inr d2) \<and>
      insert_log_or_ignore uid c now d2 = Inr d3)"
proof (cases eng)
  case SQLite
  let ?ss = "[increment_current_uses SQLite c,
      bound (int64 amt \<and> int64 uid) OverflowError
        (update_users_where_id (add_credits SQLite amt) uid),
      bound (int64 amt \<and> int64 uid) OverflowError
        (update_users_where_id (add_total_earned SQLite amt) uid),
      bound (int64 uid) OverflowError (insert_log_or_ignore uid c now), commit]"
  show ?thesis
  proof (cases "run_statements fault ?ss d")
    case (Inl e)
    with SQLite show ?thesis
      by (simp add: redeem_transaction_def redeem_transaction_sqlite_def)
  next
    case (Inr d')
    from run_statements_without_fault [OF Inr]
    obtain d1 da db where 1: "increment_current_uses SQLite c d = Inr d1"
      and 2: "update_users_where_id (add_credits SQLite amt) uid d1 = Inr da"
      and 3: "update_users_where_id (add_total_earned SQLite amt) uid da = Inr db"
      and 4: "insert_log_or_ignore uid c now db = Inr d'" and ok: "int64 uid"
      by (auto simp add: bound_Inr commit_Inr split: sum.splits)
    from update_users_where_id_twice [OF 2 3]
    obtain g where "update_users_where_id g uid d1 = Inr db" ..
    with 1 4 ok Inr SQLite show ?thesis
      by (auto simp add: redeem_transaction_def redeem_transaction_sqlite_def)
  qed
next
  case PostgreSQL
  let ?ss = "[increment_current_uses PostgreSQL c,
      bound (int32 amt \<and> int64 uid) DataError
        (update_users_where_id (add_credits_and_earned PostgreSQL amt) uid),
      bound (int64 uid) DataError (insert_log_or_ignore uid c now), commit]"
  show ?thesis
  proof (cases "run_statements fault ?ss d")
    case (Inl e)
    with PostgreSQL show ?thesis
      by (simp add: redeem_transaction_def redeem_transaction_pg_def)
  next
    case (Inr d')
    from run_statements_without_fault [OF Inr]
    obtain d1 d2 where 1: "increment_current_uses PostgreSQL c d = Inr d1"
      and 2: "update_users_where_id (add_credits_and_earned PostgreSQL amt) uid d1 = Inr d2"
      and 4: "insert_log_or_ignore uid c now d2 = Inr d'" and ok: "int64 uid"
      by (auto simp add: bound_Inr commit_Inr split: sum.splits)
    with Inr PostgreSQL show ?thesis
      by (auto simp add: redeem_transaction_def redeem_transaction_pg_def)
  qed
qed

lemma redeem_transaction_granted:
  assumes "redeem_transaction eng fault now d uid c amt = (Inr (Amount n), d')"
  shows "n = amt" and "int64 uid" and "users d' k = None \<longleftrightarrow> users d k = None"
    and "k \<noteq> uid \<Longrightarrow> users d' k = users d k"
    and "redeem_logs d' =
           (if log_exists d uid c then redeem_logs d
            else redeem_logs d @ [\<lparr>log_user_id = uid, log_code = c, claimed_date = now\<rparr>])"
    and "redeem_codes d' =
           (case redeem_codes d c of
              None \<Rightarrow> redeem_codes d
            | Some r \<Rightarrow>
                (redeem_codes d)(c \<mapsto>
                   r\<lparr>current_uses := (case next_uses eng (current_uses r) of
                                          Inr n \<Rightarrow> n | Inl e \<Rightarrow> current_uses r)\<rparr>))"
    and "redeem_codes d c = Some r \<Longrightarrow> \<exists>m. next_uses eng (current_uses r) = Inr m"
proof -
  from redeem_transaction_outcome [of eng fault now d uid c amt] assms
  obtain d1 d2 f where n: "n = amt" and ok: "int64 uid"
    and 1: "increment_current_uses eng c d = Inr d1"
    and 2: "update_users_where_id f uid d1 = Inr d2"
    and 3: "insert_log_or_ignore uid c now d2 = Inr d'"
    by auto
  show "n = amt" by (rule n)
  show "int64 uid" by (rule ok)
  show "users d' k = None \<longleftrightarrow> users d k = None"
    using increment_current_uses_Inr(1) [OF 1] update_users_where_id_Inr(4) [OF 2]
      insert_log_or_ignore_Inr(1) [OF 3] by simp
  show "users d' k = users d k" if "k \<noteq> uid"
    using that increment_current_uses_Inr(1) [OF 1] update_users_where_id_Inr(3) [OF 2]
      insert_log_or_ignore_Inr(1) [OF 3] by simp
  have "log_exists d2 uid c = log_exists d uid c"
    using increment_current_uses_Inr(2) [OF 1] update_users_where_id_Inr(2) [OF 2]
    by (simp add: log_exists_def)
  then show "redeem_logs d' =
           (if log_exists d uid c then redeem_logs d
            else redeem_logs d @ [\<lparr>log_user_id = uid, log_code = c, claimed_date = now\<rparr>])"
    using increment_current_uses_Inr(2) [OF 1] update_users_where_id_Inr(2) [OF 2]
      insert_log_or_ignore_Inr(3) [OF 3] by simp
  show "redeem_codes d' =
           (case redeem_codes d c of
              None \<Rightarrow> redeem_codes d
            | Some r \<Rightarrow>
                (redeem_codes d)(c \<mapsto>
                   r\<lparr>current_uses := (case next_uses eng (current_uses r) of
                                          Inr n \<Rightarrow> n | Inl e \<Rightarrow> current_uses r)\<rparr>))"
    using increment_current_uses_Inr(3) [OF 1] update_users_where_id_Inr(1) [OF 2]
      insert_log_or_ignore_Inr(2) [OF 3] by simp
  show "\<exists>m. next_uses eng (current_uses r) = Inr m" if "redeem_codes d c = Some r"
    using increment_current_uses_Inr(4) [OF 1 that] .
qed

lemma redeem_transaction_state:
  "snd (redeem_transaction eng fault now d uid c amt) = d \<or>
   redeem_transaction eng fault now d uid c amt =
     (Inr (Amount amt), snd (redeem_transaction eng fault now d uid c amt))"
  using redeem_transaction_outcome [of eng fault now d uid c amt] by auto

lemma redeem_code_db_parts:
  "redeem_code_db eng fault now d uid c =
     (case redeem_checks eng now d uid c of
        Inl e \<Rightarrow> (Inl e, d)
      | Inr (Answer a) \<Rightarrow> (Inr a, d)
      | Inr (Proceed amt) \<Rightarrow> redeem_transaction eng fault now d uid c amt)"
  by (cases eng)
    (auto simp add: redeem_code_db_def redeem_code_db_sqlite_def redeem_code_db_pg_def
      redeem_transaction_def split: sum.splits checked.splits)

lemma redeem_checks_Proceed:
  "redeem_checks eng now d uid c = Inr (Proceed amt) \<longleftrightarrow>
   int64 uid \<and> \<not> log_exists d uid c \<and>
   (\<exists>r. redeem_codes d c = Some r \<and> is_active r \<noteq> 0 \<and> current_uses r < max_uses r \<and>
        expiry_check now r = Inr False \<and> amt = amount r)"
  by (auto simp add: redeem_checks_def split: option.splits sum.splits bool.splits)

lemma redeem_checks_never_grants:
  "redeem_checks eng now d uid c \<noteq> Inr (Answer (Amount n))"
  by (auto simp add: redeem_checks_def split: option.splits sum.splits bool.splits)

lemma redeem_code_db_outcome:
  "(snd (redeem_code_db eng fault now d uid c) = d \<and>
    (\<forall>n. fst (redeem_code_db eng fault now d uid c) \<noteq> Inr (Amount n))) \<or>
   (\<exists>r. int64 uid \<and> \<not> log_exists d uid c \<and> redeem_codes d c = Some r \<and> is_active r \<noteq> 0 \<and>
        current_uses r < max_uses r \<and> expiry_check now r = Inr False \<and>
        redeem_code_db eng fault now d uid c =
          redeem_transaction eng fault now d uid c (amount r) \<and>
        fst (redeem_code_db eng fault now d uid c) = Inr (Amount (amount r)))"
proof (cases "redeem_checks eng now d uid c")
  case (Inl e)
  then show ?thesis by (simp add: redeem_code_db_parts)
next
  case (Inr ch)
  show ?thesis
  proof (cases ch)
    case (Answer a)
    with Inr redeem_checks_never_grants [of eng now d uid c] show ?thesis
      by (auto simp add: redeem_code_db_parts)
  next
    case (Proceed amt)
    with Inr have eq: "redeem_code_db eng fault now d uid c =
        redeem_transaction eng fault now d uid c amt"
      by (simp add: redeem_code_db_parts)
    from Inr Proceed obtain r where r: "int64 uid" "\<not> log_exists d uid c"
      "redeem_codes d c = Some r" "is_active r \<noteq> 0" "current_uses r < max_uses r"
      "expiry_check now r = Inr False" "amt = amount r"
      by (auto simp add: redeem_checks_Proceed)
    from redeem_transaction_outcome [of eng fault now d uid c amt] show ?thesis
    proof
      assume "snd (redeem_transaction eng fault now d uid c amt) = d \<and>
        (\<forall>n. fst (redeem_transaction eng fault now d uid c amt) \<noteq> Inr (Amount n))"
      with eq show ?thesis by simp
    next
      assume "\<exists>d1 d2 d3.
        redeem_transaction eng fault now d uid c amt = (Inr (Amount amt), d3) \<and> int64 uid \<and>
        increment_current_uses eng c d = Inr d1 \<and>
        (\<exists>f. update_users_where_id f uid d1 = Inr d2) \<and>
        insert_log_or_ignore uid c now d2 = Inr d3"
      then have "fst (redeem_transaction eng fault now d uid c amt) = Inr (Amount amt)"
        by auto
      with eq r show ?thesis by auto
    qed
  qed
qed

lemma redeem_code_db_state:
  "snd (redeem_code_db eng fault now d uid c) = d \<or>
   (\<exists>r. \<not> log_exists d uid c \<and> redeem_codes d c = Some r \<and> current_uses r < max_uses r \<and>
        redeem_code_db eng fault now d uid c =
          (Inr (Amount (amount r)), snd (redeem_code_db eng fault now d uid c)) \<and>
        redeem_transaction eng fault now d uid c (amount r) =
          (Inr (Amount (amount r)), snd (redeem_code_db eng fault now d uid c)))"
  using redeem_code_db_outcome [of eng fault now d uid c]
  by (auto simp add: prod_eq_iff)

subsection \<open>Accounts\<close>

lemma update_credits_absent:
  "users d uid = None \<Longrightarrow> snd (update_credits eng d uid delta) = d"
  by (cases eng)
    (auto simp add: update_credits_def returned_def bound_def update_users_where_id_absent)

lemma update_credits_absent_returns:
  "users d uid = None \<Longrightarrow> int64 uid \<Longrightarrow> fits_integer eng delta \<Longrightarrow>
   update_credits eng d uid delta = (Inr (), d)"
  by (cases eng)
    (auto simp add: update_credits_def fits_integer_def update_users_where_id_absent)

lemma add_user_absent:
  "users d uid = None \<Longrightarrow> int64 uid \<Longrightarrow> fits_optional int64 ref \<Longrightarrow>
   add_user eng now d uid uname ref =
     (Inr (), d\<lparr>users := (users d)(uid \<mapsto> new_user uname now ref)\<rparr>)"
  by (cases eng) (simp_all add: add_user_def add_user_sqlite_def add_user_pg_def)

text \<open>
  C5, as the code has it. \<open>update_credits\<close> on an account that exists, for an id and a
  delta that the engine binds and sums that stay in the range of the engine's integer
  type (32 bits under the pooled engine, 64 bits under the embedded engine): a positive
  delta is added to the balance and to the lifetime-earned counter; a delta that is zero
  or negative is added to the balance alone, which may become negative. Every other
  column of the row, every other row and the other tables stay as they were, and the
  call returns normally.
\<close>

theorem update_credits_within_range:
  assumes "users d uid = Some u" and "credits u = Integer b" and "total_earned u = Integer e"
    and "int64 uid" and "fits_integer eng delta" and "fits_integer eng (b + delta)"
    and "0 < delta \<longrightarrow> fits_integer eng (e + delta)"
  shows "update_credits eng d uid delta =
           (Inr (), d\<lparr>users := (users d)(uid \<mapsto>
               (if delta > 0
                then u\<lparr>credits := Integer (b + delta), total_earned := Integer (e + delta)\<rparr>
                else u\<lparr>credits := Integer (b + delta)\<rparr>))\<rparr>)"
  using assms
  by (cases eng)
    (auto simp add: update_credits_def fits_integer_def update_users_where_id_def
      add_credits_and_earned_def add_credits_def sql_add_def)

theorem update_credits_within_range_witness:
  "users demo_db 7 = Some alice \<and> credits alice = Integer 55 \<and>
   total_earned alice = Integer 50 \<and> int64 7 \<and> fits_integer SQLite 3 \<and>
   fits_integer SQLite (55 + 3) \<and> fits_integer SQLite (50 + 3) \<and>
   update_credits SQLite demo_db 7 3 =
     (Inr (), demo_db\<lparr>users := (users demo_db)(7 \<mapsto>
        alice\<lparr>credits := Integer 58, total_earned := Integer 53\<rparr>)\<rparr>) \<and>
   users demo_db 8 = Some bob \<and> credits bob = Integer 5 \<and> total_earned bob = Integer 0 \<and>
   int64 8 \<and> fits_integer PostgreSQL (- 9) \<and> fits_integer PostgreSQL (5 + - 9) \<and>
   update_credits PostgreSQL demo_db 8 (- 9) =
     (Inr (), demo_db\<lparr>users := (users demo_db)(8 \<mapsto> bob\<lparr>credits := Integer (- 4)\<rparr>)\<rparr>)"
proof -
  have a: "users demo_db 7 = Some alice" and b: "users demo_db 8 = Some bob"
    by (simp_all add: demo_db_def)
  have ca: "credits alice = Integer 55" and ea: "total_earned alice = Integer 50"
    by (simp_all add: alice_def)
  have cb: "credits bob = Integer 5" and eb: "total_earned bob = Integer 0"
    by (simp_all add: bob_def)
  have r: "int64 7" "int64 8" "fits_integer SQLite 3" "fits_integer SQLite (55 + 3)"
    "fits_integer SQLite (50 + 3)" "fits_integer PostgreSQL (- 9)"
    "fits_integer PostgreSQL (5 + - 9)"
    by (simp_all add: int64_def int32_def fits_integer_def)
  show ?thesis
    using a b ca ea cb eb r
      update_credits_within_range [OF a ca ea r(1) r(3) r(4), of ]
      update_credits_within_range [OF b cb eb r(2) r(6) r(7)]
    by simp
qed

text \<open>
  C5, as stated for every delta, fails. Under the pooled engine the delta 2147483647 on
  a balance of 55 raises \<open>integer out of range\<close> and changes nothing; under the embedded
  engine the delta 9223372036854775807 takes the balance out of the integers.
\<close>

theorem update_credits_overflow_counterexample:
  "users demo_db 7 = Some alice \<and> credits alice = Integer 55 \<and>
   update_credits PostgreSQL demo_db 7 2147483647 = (Inl NumericValueOutOfRange, demo_db) \<and>
   map_option credits (users (snd (update_credits SQLite demo_db 7 9223372036854775807)) 7) =
     Some Overflowed"
  by (simp add: demo_db_def alice_def update_credits_def update_users_where_id_def
      add_credits_and_earned_def sql_add_def int32_def int64_def)

text \<open>
  C10, as the code has it. \<open>update_credits\<close> for an id without a row changes nothing;
  when the id is within 64 bits and the engine binds the delta, it also returns
  normally. So when \<open>start_command\<close> registers a new user whose start link names a
  referrer without a row, with an id within 64 bits, the call returns normally and the
  only change is the new user's row, with \<open>last_active\<close> set again when the user is a
  member: the 3 credits of the referral reach nobody.
\<close>

theorem update_credits_no_account:
  assumes "users d uid = None"
  shows "snd (update_credits eng d uid delta) = d \<and>
         (int64 uid \<and> fits_integer eng delta \<longrightarrow>
            update_credits eng d uid delta = (Inr (), d)) \<and>
         (int64 uid \<and> int64 new \<and> users d new = None \<and> new \<noteq> uid \<longrightarrow>
            start_command eng now later d new uname (Some uid) member =
              (Inr (), d\<lparr>users := (users d)(new \<mapsto>
                 (new_user uname now (Some uid))
                   \<lparr>last_active := (if member then later else now)\<rparr>)\<rparr>))"
proof -
  have "start_command eng now later d new uname (Some uid) member =
          (Inr (), d\<lparr>users := (users d)(new \<mapsto>
             (new_user uname now (Some uid))\<lparr>last_active := (if member then later else now)\<rparr>)\<rparr>)"
    if r: "int64 uid" "int64 new" "users d new = None" "new \<noteq> uid"
  proof -
    let ?d1 = "d\<lparr>users := (users d)(new \<mapsto> new_user uname now (Some uid))\<rparr>"
    have added: "add_user eng now d new uname (Some uid) = (Inr (), ?d1)"
      using r by (simp add: add_user_absent fits_optional_def)
    have "users ?d1 uid = None" using assms r by simp
    moreover have "fits_integer eng 3"
      by (cases eng) (simp_all add: fits_integer_def int64_def int32_def)
    ultimately have bonus: "update_credits eng ?d1 uid 3 = (Inr (), ?d1)"
      using r(1) by (simp add: update_credits_absent_returns)
    have reg: "register_user eng now d new uname (Some uid) = (Inr (), ?d1)"
      using r added bonus by (auto simp add: register_user_def Let_def)
    have active: "update_last_active eng later ?d1 new =
        d\<lparr>users := (users d)(new \<mapsto> (new_user uname now (Some uid))\<lparr>last_active := later\<rparr>)\<rparr>"
      by (cases eng) (simp_all add: update_last_active_def set_users_where_id_def)
    have same: "(new_user uname now (Some uid))\<lparr>last_active := now\<rparr> = new_user uname now (Some uid)"
      by (simp add: new_user_def)
    show ?thesis
      using r reg active same
      by (simp add: start_command_def is_user_banned_def Let_def)
  qed
  with assms show ?thesis
    by (simp add: update_credits_absent update_credits_absent_returns)
qed

theorem update_credits_no_account_witness:
  "users demo_db 9 = None \<and> int64 9 \<and> fits_integer SQLite 3 \<and>
   update_credits SQLite demo_db 9 3 = (Inr (), demo_db) \<and>
   int64 10 \<and> users demo_db 10 = None \<and> (10::int) \<noteq> 9 \<and>
   start_command SQLite demo_time (demo_time + 1) demo_db 10 None (Some 9) True =
     (Inr (), demo_db\<lparr>users := (users demo_db)(10 \<mapsto>
        (new_user None demo_time (Some 9))\<lparr>last_active := demo_time + 1\<rparr>)\<rparr>)"
proof -
  have a: "users demo_db 9 = None" and b: "users demo_db 10 = None"
    by (simp_all add: demo_db_def)
  have r: "int64 9" "int64 10" "fits_integer SQLite 3"
    by (simp_all add: int64_def fits_integer_def)
  show ?thesis
    using a b r
      update_credits_no_account [OF a, of SQLite 3 10 demo_time "demo_time + 1" None True]
    by simp
qed

text \<open>
  C10, as stated for every id, fails. For the id 9223372036854775808 the binding raises
  \<open>OverflowError\<close>; and a start link that names a referrer of 21 digits makes \<open>add_user\<close>
  raise, so that the new user is not registered at all.
\<close>

theorem huge_id_counterexample:
  "users demo_db 9223372036854775808 = None \<and>
   update_credits SQLite demo_db 9223372036854775808 3 = (Inl OverflowError, demo_db) \<and>
   users demo_db 9 = None \<and>
   start_command SQLite demo_time (demo_time + 1) demo_db 9 None
       (Some 100000000000000000000) True =
     (Inl OverflowError, demo_db)"
  by (simp add: demo_db_def update_credits_def int64_def start_command_def is_user_banned_def
      register_user_def Let_def add_user_def add_user_sqlite_def fits_optional_def)

text \<open>
  C8. \<open>delete_user\<close> removes the account's row and every row of \<open>redeem_logs\<close> of the
  account, keeps the other rows of \<open>redeem_logs\<close>, clears \<open>referrer_id\<close> in every
  remaining row that pointed at the account, and changes nothing else in the remaining
  rows nor in \<open>redeem_codes\<close>. Both engines.
\<close>

theorem delete_user_effect:
  "users (delete_user eng d A) A = None \<and>
   redeem_logs (delete_user eng d A) = filter (\<lambda>r. log_user_id r \<noteq> A) (redeem_logs d) \<and>
   (\<forall>r \<in> set (redeem_logs (delete_user eng d A)). log_user_id r \<noteq> A) \<and>
   (\<forall>B. B \<noteq> A \<longrightarrow>
      users (delete_user eng d A) B =
        map_option (\<lambda>u. if referrer_id u = Some A then u\<lparr>referrer_id := None\<rparr> else u)
          (users d B)) \<and>
   redeem_codes (delete_user eng d A) = redeem_codes d"
  by (cases eng)
    (simp_all add: delete_user_def clear_referrer_def delete_from_redeem_logs_def
      delete_from_users_def)

theorem delete_user_effect_witness:
  "users (delete_user SQLite demo_db 7) 7 = None \<and>
   redeem_logs (delete_user SQLite demo_db 7) = [] \<and>
   (8::int) \<noteq> 7 \<and>
   users (delete_user SQLite demo_db 7) 8 = Some (bob\<lparr>referrer_id := None\<rparr>) \<and>
   redeem_codes (delete_user SQLite demo_db 7) = redeem_codes demo_db"
  using delete_user_effect [of SQLite demo_db 7]
  by (simp add: demo_db_def bob_def)

subsection \<open>New accounts\<close>

lemma users_register_user:
  assumes "users d k = None"
  shows "users (snd (register_user eng now d uid uname ref_arg)) k = None \<or>
         (\<exists>r. k = uid \<and>
              users (snd (register_user eng now d uid uname ref_arg)) k =
                Some (new_user uname now r))"
proof (cases "users d uid")
  case (Some u)
  with assms show ?thesis by (simp add: register_user_def)
next
  case None
  define referrer where
    "referrer = (case ref_arg of None \<Rightarrow> None | Some r \<Rightarrow> if r = uid then None else Some r)"
  let ?d1 = "snd (add_user eng now d uid uname referrer)"
  have d1: "users ?d1 k = None \<or> (k = uid \<and> users ?d1 k = Some (new_user uname now referrer))"
    using assms by (auto simp add: users_add_user)
  have no_self: "referrer \<noteq> Some uid"
    by (auto simp add: referrer_def split: option.splits)
  have "snd (register_user eng now d uid uname ref_arg) = ?d1 \<or>
        (\<exists>r. r \<noteq> uid \<and>
             snd (register_user eng now d uid uname ref_arg) = snd (update_credits eng ?d1 r 3))"
    using None no_self
    by (auto simp add: register_user_def Let_def referrer_def [symmetric]
        split: option.splits sum.splits)
  then show ?thesis
  proof
    assume "snd (register_user eng now d uid uname ref_arg) = ?d1"
    with d1 show ?thesis by auto
  next
    assume "\<exists>r. r \<noteq> uid \<and>
      snd (register_user eng now d uid uname ref_arg) = snd (update_credits eng ?d1 r 3)"
    then obtain r where r: "r \<noteq> uid"
      and eq: "snd (register_user eng now d uid uname ref_arg) = snd (update_credits eng ?d1 r 3)"
      by auto
    from d1 show ?thesis
    proof
      assume "users ?d1 k = None"
      then show ?thesis by (simp add: eq users_update_credits_None)
    next
      assume "k = uid \<and> users ?d1 k = Some (new_user uname now referrer)"
      with r show ?thesis by (auto simp add: eq users_update_credits_other)
    qed
  qed
qed

lemma exec_new_row:
  assumes "users d uid = None"
  shows "users (exec eng now x d) uid = None \<or>
         (\<exists>u. users (exec eng now x d) uid = Some u \<and>
              credits u = Integer 5 \<and> total_earned u = Integer 0 \<and> is_banned u = 0)"
proof (cases x)
  case (Add_user k uname ref)
  with assms show ?thesis by (auto simp add: users_add_user new_user_def)
next
  case (Update_credits k amt)
  with assms show ?thesis by (simp add: users_update_credits_None)
next
  case (Bulk_update_credits uids amt)
  with assms show ?thesis by (simp add: users_bulk_update_credits_None)
next
  case (Redeem_code_db fault k c)
  with assms redeem_code_db_state [of eng fault now d k c]
    redeem_transaction_granted(3) [of eng fault now d k c _ _ _ uid]
  show ?thesis by auto
next
  case (Redeem_transaction fault k c amt)
  with assms redeem_transaction_state [of eng fault now d k c amt]
    redeem_transaction_granted(3) [of eng fault now d k c amt amt _ uid]
  show ?thesis by auto
next
  case (Start_command k uname ref_arg member later)
  let ?reg = "register_user eng now d k uname ref_arg"
  have reg: "users (snd ?reg) uid = None \<or>
      (\<exists>r. uid = k \<and> users (snd ?reg) uid = Some (new_user uname now r))"
    by (rule users_register_user [OF assms])
  have "snd (start_command eng now later d k uname ref_arg member) = d \<or>
        snd (start_command eng now later d k uname ref_arg member) = snd ?reg \<or>
        snd (start_command eng now later d k uname ref_arg member) =
          update_last_active eng later (snd ?reg) k"
    by (auto simp add: start_command_def Let_def split: sum.splits)
  moreover have "users (update_last_active eng later (snd ?reg) k) uid = None \<or>
      (\<exists>u. users (update_last_active eng later (snd ?reg) k) uid = Some u \<and>
           credits u = Integer 5 \<and> total_earned u = Integer 0 \<and> is_banned u = 0)"
    using reg
    by (cases eng)
      (auto simp add: update_last_active_def users_set_users_where_id new_user_def)
  ultimately show ?thesis
    using assms reg Start_command by (auto simp add: new_user_def)
next
  case (Delete_user k)
  with assms show ?thesis
    by (cases eng) (simp_all add: delete_user_def clear_referrer_def
        delete_from_redeem_logs_def delete_from_users_def)
qed (use assms in \<open>auto simp add: set_ban_status_def reset_user_credits_def update_username_def
      update_last_active_def users_set_users_where_id split: engine.splits\<close>)

text \<open>
  C9. \<open>add_user\<close> for an id without a row, when the id and the referrer are within 64
  bits, returns normally and inserts a row with 5 credits, a lifetime-earned counter of
  0 and the ban flag 0. No other function inserts into \<open>users\<close>: whenever an operation
  leaves a row for an id that had none, the row has these three values.
\<close>

theorem new_account_defaults:
  assumes "users d uid = None"
  shows "(int64 uid \<and> fits_optional int64 ref \<longrightarrow>
            fst (add_user eng now d uid uname ref) = Inr () \<and>
            (\<exists>u. users (snd (add_user eng now d uid uname ref)) uid = Some u \<and>
                 credits u = Integer 5 \<and> total_earned u = Integer 0 \<and> is_banned u = 0)) \<and>
         (\<forall>u. users (exec eng now' x d) uid = Some u \<longrightarrow>
              credits u = Integer 5 \<and> total_earned u = Integer 0 \<and> is_banned u = 0)"
proof -
  have "fst (add_user eng now d uid uname ref) = Inr () \<and>
        (\<exists>u. users (snd (add_user eng now d uid uname ref)) uid = Some u \<and>
             credits u = Integer 5 \<and> total_earned u = Integer 0 \<and> is_banned u = 0)"
    if "int64 uid" "fits_optional int64 ref"
    using assms that by (simp add: add_user_absent new_user_def)
  then show ?thesis
    using exec_new_row [OF assms, where eng = eng and now = now' and x = x] by auto
qed

theorem new_account_defaults_witness:
  "users demo_db 9 = None \<and> int64 9 \<and> fits_optional int64 (Some 7) \<and>
   fst (add_user PostgreSQL demo_time demo_db 9 (Some ''carol'') (Some 7)) = Inr () \<and>
   map_option credits
     (users (snd (add_user PostgreSQL demo_time demo_db 9 (Some ''carol'') (Some 7))) 9) =
     Some (Integer 5) \<and>
   map_option total_earned
     (users (exec PostgreSQL demo_time (Start_command 9 None (Some 7) True (demo_time + 1))
        demo_db) 9) = Some (Integer 0)"
proof -
  have a: "users demo_db 9 = None" by (simp add: demo_db_def)
  have r: "int64 9" "fits_optional int64 (Some 7)"
    by (simp_all add: int64_def fits_optional_def)
  have b: "users (exec PostgreSQL demo_time
      (Start_command 9 None (Some 7) True (demo_time + 1)) demo_db) 9 \<noteq> None"
    by (simp add: start_command_def is_user_banned_def a Let_def register_user_def
        add_user_def add_user_pg_def int64_def int32_def fits_optional_def
        update_credits_def update_users_where_id_def add_credits_and_earned_def sql_add_def
        demo_db_def alice_def update_last_active_def users_set_users_where_id)
  show ?thesis
    using a b r new_account_defaults [OF a, of "Some 7" PostgreSQL demo_time "Some ''carol''"
        demo_time "Start_command 9 None (Some 7) True (demo_time + 1)"]
    by auto
qed

subsection \<open>Expiry\<close>

lemmas eval_defs =
  empty_db_def create_redeem_code_def redeem_code_db_def redeem_code_db_sqlite_def
  redeem_code_db_pg_def redeem_checks_def redeem_transaction_def redeem_transaction_sqlite_def
  redeem_transaction_pg_def log_exists_def new_code_def expiry_check_def
  increment_current_uses_def next_uses_def update_users_where_id_def
  insert_log_or_ignore_def commit_def add_user_def add_user_sqlite_def add_user_pg_def
  new_user_def deactivate_code_def delete_redeem_code_def update_codes_where_code_def
  int64_def int32_def fits_optional_def sql_add_def add_credits_def add_total_earned_def
  add_credits_and_earned_def delete_user_def clear_referrer_def delete_from_redeem_logs_def
  delete_from_users_def timedelta_minutes_def datetime_add_def valid_datetime_def
  datetime_end_def demo_time_def

lemma expiry_check_no_duration:
  "expiry_minutes r = None \<or> (\<exists>m. expiry_minutes r = Some m \<and> m \<le> 0) \<Longrightarrow>
   expiry_check now r = Inr False"
  by (auto simp add: expiry_check_def)

lemma expiry_check_elapsed:
  assumes "valid_datetime now" and "valid_datetime (created_date r)"
  shows "expiry_check now r = Inr True \<longleftrightarrow>
         (\<exists>m. expiry_minutes r = Some m \<and> 0 < m \<and> created_date r + m * 60000000 < now)"
proof (cases "expiry_minutes r")
  case None
  then show ?thesis by (simp add: expiry_check_def)
next
  case (Some m)
  show ?thesis
  proof (cases "0 < m")
    case False
    with Some show ?thesis by (simp add: expiry_check_def)
  next
    case pos: True
    have big: "created_date r + m * 60000000 \<ge> datetime_end" if "\<bar>m div 1440\<bar> > 999999999"
    proof -
      from that pos have "m div 1440 \<ge> 1000000000" by linarith
      then have "m \<ge> 1440 * 1000000000" by linarith
      with assms(2) show ?thesis
        by (simp add: valid_datetime_def datetime_end_def)
    qed
    show ?thesis
      using Some pos assms big
      by (auto simp add: expiry_check_def timedelta_minutes_def datetime_add_def
          valid_datetime_def)
  qed
qed

lemma redeem_transaction_not_expired:
  "fst (redeem_transaction eng fault now d uid c amt) \<noteq> Inr Expired"
  by (cases eng)
    (auto simp add: redeem_transaction_def redeem_transaction_sqlite_def
      redeem_transaction_pg_def split: sum.splits)

lemma redeem_code_db_expired:
  "fst (redeem_code_db eng fault now d uid c) = Inr Expired \<longleftrightarrow>
   int64 uid \<and> \<not> log_exists d uid c \<and>
   (\<exists>r. redeem_codes d c = Some r \<and> is_active r \<noteq> 0 \<and> current_uses r < max_uses r \<and>
        expiry_check now r = Inr True)"
proof -
  have "fst (redeem_code_db eng fault now d uid c) = Inr Expired \<longleftrightarrow>
        redeem_checks eng now d uid c = Inr (Answer Expired)"
    using redeem_transaction_not_expired [of eng fault now d uid c]
    by (auto simp add: redeem_code_db_parts split: sum.splits checked.splits)
  also have "\<dots> \<longleftrightarrow> int64 uid \<and> \<not> log_exists d uid c \<and>
     (\<exists>r. redeem_codes d c = Some r \<and> is_active r \<noteq> 0 \<and> current_uses r < max_uses r \<and>
        expiry_check now r = Inr True)"
    by (auto simp add: redeem_checks_def split: option.splits sum.splits bool.splits)
  finally show ?thesis .
qed

text \<open>
  C7, as the code has it. A claim at time \<open>now\<close> is answered \<open>expired\<close> exactly when the
  steps before the expiry test pass (the id binds, no earlier claim of the pair, the code
  exists, is active and has uses left) and the code has an expiry duration that is
  positive with \<open>now > created_date + expiry_minutes\<close> minutes. A code whose duration is
  absent, zero or negative is never answered \<open>expired\<close>, at any time \<open>now'\<close>. The clock
  and the stored creation time are values of \<open>datetime\<close>.
\<close>

theorem expired_exactly_when_elapsed:
  assumes "valid_datetime now"
    and "\<forall>r. redeem_codes d c = Some r \<longrightarrow> valid_datetime (created_date r)"
  shows "(fst (redeem_code_db eng fault now d uid c) = Inr Expired \<longleftrightarrow>
            int64 uid \<and> \<not> log_exists d uid c \<and>
            (\<exists>r m. redeem_codes d c = Some r \<and> is_active r \<noteq> 0 \<and>
                   current_uses r < max_uses r \<and>
                   expiry_minutes r = Some m \<and> 0 < m \<and>
                   created_date r + m * 60000000 < now)) \<and>
         (\<forall>r. redeem_codes d c = Some r \<longrightarrow>
              (expiry_minutes r = None \<or> (\<exists>m. expiry_minutes r = Some m \<and> m \<le> 0)) \<longrightarrow>
              fst (redeem_code_db eng fault now' d uid c) \<noteq> Inr Expired)"
proof -
  have "fst (redeem_code_db eng fault now d uid c) = Inr Expired \<longleftrightarrow>
          int64 uid \<and> \<not> log_exists d uid c \<and>
          (\<exists>r m. redeem_codes d c = Some r \<and> is_active r \<noteq> 0 \<and>
                 current_uses r < max_uses r \<and>
                 expiry_minutes r = Some m \<and> 0 < m \<and>
                 created_date r + m * 60000000 < now)"
    using assms expiry_check_elapsed [OF assms(1)]
    by (auto simp add: redeem_code_db_expired)
  moreover have "fst (redeem_code_db eng fault now' d uid c) \<noteq> Inr Expired"
    if "redeem_codes d c = Some r"
      and "expiry_minutes r = None \<or> (\<exists>m. expiry_minutes r = Some m \<and> m \<le> 0)" for r
    using that expiry_check_no_duration [OF that(2), of now']
    by (auto simp add: redeem_code_db_expired)
  ultimately show ?thesis by blast
qed

theorem expired_exactly_when_elapsed_witness:
  "valid_datetime (demo_time + 60000001) \<and>
   redeem_codes demo_db ''WELCOME50'' = Some welcome50 \<and>
   valid_datetime (created_date welcome50) \<and>
   fst (redeem_code_db SQLite None (demo_time + 60000001) demo_db 8 ''WELCOME50'') = Inr Expired \<and>
   valid_datetime (demo_time + 60000000) \<and>
   fst (redeem_code_db SQLite None (demo_time + 60000000) demo_db 8 ''WELCOME50'') \<noteq> Inr Expired"
proof -
  have a: "valid_datetime (demo_time + 60000001)" and a': "valid_datetime (demo_time + 60000000)"
    by (simp_all add: valid_datetime_def datetime_end_def demo_time_def)
  have b: "\<forall>r. redeem_codes demo_db ''WELCOME50'' = Some r \<longrightarrow> valid_datetime (created_date r)"
    by (simp add: demo_db_def welcome50_def valid_datetime_def datetime_end_def demo_time_def)
  have c: "\<not> log_exists demo_db 8 ''WELCOME50''"
    by (simp add: log_exists_def demo_db_def)
  have d: "redeem_codes demo_db ''WELCOME50'' = Some welcome50"
    by (simp add: demo_db_def)
  have e: "valid_datetime (created_date welcome50)"
    using b d by simp
  have f: "int64 8" by (simp add: int64_def)
  show ?thesis
    using a a' c d e f
      expired_exactly_when_elapsed [OF a b, of SQLite None 8 demo_time]
      expired_exactly_when_elapsed [OF a' b, of SQLite None 8 demo_time]
    by (simp add: welcome50_def)
qed

text \<open>
  C7, as stated for every claim attempt, fails. The code \<open>ONCE\<close> has a duration of one
  minute and has been used up; two minutes after its creation a claim by another user
  is answered \<open>limit_reached\<close>, and a claim by the same user \<open>already_claimed\<close>, not
  \<open>expired\<close>: the limit and the earlier claim are tested first.
\<close>

theorem elapsed_but_used_up_counterexample:
  "map_option expiry_minutes (redeem_codes (run SQLite used_up_ops empty_db) ''ONCE'') =
     Some (Some 1) \<and>
   map_option created_date (redeem_codes (run SQLite used_up_ops empty_db) ''ONCE'') =
     Some demo_time \<and>
   demo_time + 1 * 60000000 < demo_time + 120000000 \<and>
   fst (redeem_code_db SQLite None (demo_time + 120000000) (run SQLite used_up_ops empty_db)
          8 ''ONCE'') = Inr Limit_reached \<and>
   fst (redeem_code_db SQLite None (demo_time + 120000000) (run SQLite used_up_ops empty_db)
          7 ''ONCE'') = Inr Already_claimed"
  by (simp add: used_up_ops_def eval_defs)

subsection \<open>The usage limit\<close>











text \<open>
  Two claims that overlap are outside the statement above. The limit is read in the
  first part of a claim and the counter is written in the second without a test: two
  claimants of a code for one use who have both read it both write, under either engine.
\<close>

lemma overlapping_claims_exceed_limit:
  "redeem_checks eng (demo_time + 1) (run eng one_use_ops empty_db) 7 ''ONCE'' =
     Inr (Proceed 10) \<and>
   redeem_checks eng (demo_time + 1) (run eng one_use_ops empty_db) 8 ''ONCE'' =
     Inr (Proceed 10) \<and>
   map_option current_uses
     (redeem_codes (run eng overlapping_ops (run eng one_use_ops empty_db)) ''ONCE'') = Some 2 \<and>
   map_option max_uses
     (redeem_codes (run eng overlapping_ops (run eng one_use_ops empty_db)) ''ONCE'') = Some 1"
  by (cases eng) (simp_all add: one_use_ops_def overlapping_ops_def eval_defs)

subsection \<open>One claim for each account and code\<close>
















subsection \<open>Defining a code again\<close>

text \<open>
  What \<open>create_redeem_code\<close> does to a code that exists: the embedded engine writes a
  new row with the counter 0, the pooled engine keeps the counter of the row.
\<close>

lemma create_redeem_code_sqlite:
  "int64 amt \<Longrightarrow> int64 uses \<Longrightarrow> fits_optional int64 exp \<Longrightarrow>
   create_redeem_code SQLite now d c amt uses exp =
     (Inr (), d\<lparr>redeem_codes := (redeem_codes d)(c \<mapsto>
          \<lparr>amount = amt, max_uses = uses, current_uses = 0, expiry_minutes = exp,
           created_date = now, is_active = 1\<rparr>)\<rparr>)"
  by (simp add: create_redeem_code_def new_code_def)

lemma create_redeem_code_pg_existing:
  "redeem_codes d c = Some r \<Longrightarrow> int32 amt \<Longrightarrow> int32 uses \<Longrightarrow> fits_optional int32 exp \<Longrightarrow>
   create_redeem_code PostgreSQL now d c amt uses exp =
     (Inr (), d\<lparr>redeem_codes := (redeem_codes d)(c \<mapsto>
          \<lparr>amount = amt, max_uses = uses, current_uses = current_uses r,
           expiry_minutes = exp, created_date = now, is_active = 1\<rparr>)\<rparr>)"
  by (cases r) (simp add: create_redeem_code_def)

text \<open>
  C1 says that defining a code again leaves its \<open>current_uses\<close> and the rows of
  \<open>redeem_logs\<close> as they are. Under the embedded engine the counter is lost: user 7
  claims \<open>WELCOME50\<close>, the counter is 1; the same definition is entered again, the counter
  is 0, while the row of the claim is still there.
\<close>

theorem redefinition_resets_uses_sqlite:
  "map_option current_uses
     (redeem_codes (run SQLite (take 3 redefine_ops) empty_db) ''WELCOME50'') = Some 1 \<and>
   map_option current_uses
     (redeem_codes (run SQLite redefine_ops empty_db) ''WELCOME50'') = Some 0 \<and>
   redeem_logs (run SQLite redefine_ops empty_db) =
     [\<lparr>log_user_id = 7, log_code = ''WELCOME50'', claimed_date = demo_time + 1\<rparr>]"
  by (simp add: redefine_ops_def eval_defs)

text \<open>
  C2 says that the two engines give the same result and the same state for every
  operation and input. For \<open>create_redeem_code\<close> on a code that has been claimed once
  they do not: the states differ in the code's \<open>current_uses\<close>.
\<close>

theorem engines_differ_on_redefinition:
  "map_option current_uses
     (redeem_codes
        (snd (create_redeem_code SQLite (demo_time + 2) demo_db ''WELCOME50'' 50 10 None))
        ''WELCOME50'') = Some 0 \<and>
   map_option current_uses
     (redeem_codes
        (snd (create_redeem_code PostgreSQL (demo_time + 2) demo_db ''WELCOME50'' 50 10 None))
        ''WELCOME50'') = Some 1 \<and>
   create_redeem_code SQLite (demo_time + 2) demo_db ''WELCOME50'' 50 10 None \<noteq>
   create_redeem_code PostgreSQL (demo_time + 2) demo_db ''WELCOME50'' 50 10 None"
proof -
  let ?s = "create_redeem_code SQLite (demo_time + 2) demo_db ''WELCOME50'' 50 10 None"
  let ?p = "create_redeem_code PostgreSQL (demo_time + 2) demo_db ''WELCOME50'' 50 10 None"
  have s: "map_option current_uses (redeem_codes (snd ?s) ''WELCOME50'') = Some 0"
    by (simp add: create_redeem_code_def new_code_def int64_def fits_optional_def)
  have p: "map_option current_uses (redeem_codes (snd ?p) ''WELCOME50'') = Some 1"
    by (simp add: create_redeem_code_def demo_db_def welcome50_def int32_def fits_optional_def)
  from s p have "?s \<noteq> ?p" by auto
  with s p show ?thesis by simp
qed

subsection \<open>A failing transaction\<close>

text \<open>
  C6 says that a claim whose transaction fails returns a value tagged as a storage
  failure under both engines, and applies nothing. The state is indeed rolled back
  under both; but under the pooled engine the exception reaches the caller, where the
  embedded engine returns \<open>error: ...\<close>. Here the second statement of the transaction
  raises while user 8 claims \<open>WELCOME50\<close>.
\<close>

theorem claim_failure_raises_pg:
  "redeem_code_db PostgreSQL (Some 1) (demo_time + 5) demo_db 8 ''WELCOME50'' =
     (Inl StorageError, demo_db) \<and>
   redeem_code_db SQLite (Some 1) (demo_time + 5) demo_db 8 ''WELCOME50'' =
     (Inr (Error StorageError), demo_db)"
  by (simp add: demo_db_def welcome50_def bob_def alice_def eval_defs)

text \<open>
  In general: the embedded branch never raises the storage error, and a failed claim
  leaves the state alone under both engines. The expiry test is outside the \<open>try\<close>:
  under the embedded engine a stored duration beyond the range of \<open>datetime\<close> makes it
  raise; the pooled engine does not store such a duration.
\<close>

lemma redeem_code_db_sqlite_no_storage_error:
  "fst (redeem_code_db SQLite fault now d uid c) \<noteq> Inl StorageError"
  by (auto simp add: redeem_code_db_def redeem_code_db_sqlite_def redeem_checks_def
      redeem_transaction_sqlite_def bind_error_def expiry_check_def timedelta_minutes_def
      datetime_add_def split: option.splits sum.splits bool.splits if_splits checked.splits)

lemma redeem_code_db_failure_rolls_back:
  "fst (redeem_code_db eng fault now d uid c) = Inl e \<or>
   fst (redeem_code_db eng fault now d uid c) = Inr (Error e) \<Longrightarrow>
   snd (redeem_code_db eng fault now d uid c) = d"
  using redeem_code_db_outcome [of eng fault now d uid c] by auto

lemma claim_overflow_raises:
  "redeem_code_db SQLite fault (demo_time + 5)
     (snd (create_redeem_code SQLite demo_time empty_db ''FOREVER'' 5 1 (Some 9999999999999)))
     7 ''FOREVER'' =
   (Inl OverflowError,
    snd (create_redeem_code SQLite demo_time empty_db ''FOREVER'' 5 1 (Some 9999999999999)))"
  by (simp add: eval_defs)

lemma create_redeem_code_pg_out_of_range:
  "create_redeem_code PostgreSQL demo_time empty_db ''FOREVER'' 5 1 (Some 9999999999999) =
     (Inl DataError, empty_db)"
  by (simp add: create_redeem_code_def int32_def fits_optional_def)

end
